theory Spec2Isabelle
  imports Complex_Main "HOL-Library.Multiset"
begin

section \<open>Kubernetes Cluster Monitor API: a shallow embedding of main.py\<close>

text \<open>
  The program is a mock HTTP service whose handlers draw random data. The embedding makes
  its three effects explicit:
  \<^item> the random number generator is a state, a stream of draws of \<open>random.random()\<close>,
    passed to and returned by every function that draws;
  \<^item> the wall clock (\<open>datetime.now()\<close>) and the standard library's date rendering
    (\<open>strftime\<close>, \<open>isoformat\<close>) are read from an environment record;
  \<^item> \<open>time.sleep\<close> adds to a counter of seconds slept.
  Python floats are modelled as real numbers and Python integers as \<open>int\<close>.
\<close>

subsection \<open>Catalog\<close>

definition SERVICES :: "string list" where
  "SERVICES =
    [''auth-service'',
     ''user-service'',
     ''payment-service'',
     ''notification-service'',
     ''analytics-service'',
     ''api-gateway'']"

definition LOG_LEVELS :: "string list" where
  "LOG_LEVELS = [''INFO'', ''DEBUG'', ''WARN'', ''ERROR'']"

definition LOG_LEVEL_WEIGHTS :: "real list" where
  "LOG_LEVEL_WEIGHTS = [0.6, 0.25, 0.1, 0.05]"

definition LOG_MESSAGES :: "string list" where
  "LOG_MESSAGES =
    [''Request processed successfully'',
     ''Database connection established'',
     ''Cache hit for key: {}'',
     ''Processing batch job'',
     ''HTTP request received: GET /api/v1/{}'',
     ''Response sent with status code: {}'',
     ''Authentication successful for user: {}'',
     ''Rate limit check passed'',
     ''Circuit breaker closed'',
     ''Health check completed'',
     ''Memory usage: {} MB'',
     ''Connection timeout, retrying...'',
     ''Invalid request parameter: {}'',
     ''Service discovery updated'',
     ''Background task scheduled'']"

definition COMMIT_TYPES :: "string list" where
  "COMMIT_TYPES = [''feat'', ''fix'', ''refactor'', ''perf'', ''docs'', ''test'', ''chore'']"

definition COMMIT_MESSAGES :: "string list" where
  "COMMIT_MESSAGES =
    [''add authentication middleware'',
     ''fix memory leak in connection pool'',
     ''update dependencies to latest versions'',
     ''optimize database query performance'',
     ''implement rate limiting'',
     ''add unit tests for API endpoints'',
     ''refactor error handling logic'',
     ''improve logging format'',
     ''fix race condition in cache invalidation'',
     ''add health check endpoint'',
     ''update API documentation'',
     ''implement circuit breaker pattern'',
     ''optimize memory usage'',
     ''fix null pointer exception'',
     ''add integration tests'',
     ''refactor service discovery logic'',
     ''improve error messages'',
     ''add metrics collection'',
     ''fix timeout handling'',
     ''implement retry mechanism'',
     ''update configuration management'',
     ''add request validation'',
     ''optimize response time'',
     ''fix connection leak'',
     ''add monitoring dashboards'',
     ''refactor database access layer'',
     ''implement graceful shutdown'',
     ''add feature flags support'',
     ''fix concurrent access issues'',
     ''improve security headers'']"

definition DEVELOPERS :: "string list" where
  "DEVELOPERS =
    [''alice.chen'',
     ''bob.smith'',
     ''carol.jones'',
     ''david.kim'',
     ''emma.wilson'',
     ''frank.garcia'',
     ''grace.lee'',
     ''henry.brown'']"

definition CLUSTER_NAME :: string where
  "CLUSTER_NAME = ''production-cluster-01''"

subsection \<open>The random module\<close>

text \<open>
  The generator state is the stream of the values that successive calls of
  \<open>random.random()\<close> return. The library promises each of them to lie in \<open>[0, 1)\<close>;
  \<open>valid_rng\<close> is that promise. The other library functions are written as the
  library computes them from such a draw: \<open>uniform a b\<close> is \<open>a + (b - a) * random()\<close>,
  \<open>choices\<close> indexes the population at \<open>floor (random() * n)\<close>, and with weights bisects
  the cumulative weights at \<open>random() * total\<close>. The library draws the integers of
  \<open>randint\<close> and the index of \<open>choice\<close> from random bits; here they are computed from one
  draw in the same way as \<open>choices\<close> does, which reaches the same results.
\<close>

type_synonym rng = "nat \<Rightarrow> real"

definition valid_rng :: "rng \<Rightarrow> bool" where
  "valid_rng g \<longleftrightarrow> (\<forall>i. 0 \<le> g i \<and> g i < 1)"

definition random :: "rng \<Rightarrow> real \<times> rng" where
  "random g = (g 0, \<lambda>i. g (Suc i))"

definition uniform :: "real \<Rightarrow> real \<Rightarrow> rng \<Rightarrow> real \<times> rng" where
  "uniform a b g = (let (u, g') = random g in (a + (b - a) * u, g'))"

definition randint :: "int \<Rightarrow> int \<Rightarrow> rng \<Rightarrow> int \<times> rng" where
  "randint a b g = (let (u, g') = random g in (a + \<lfloor>u * of_int (b - a + 1)\<rfloor>, g'))"

definition choice :: "'a list \<Rightarrow> rng \<Rightarrow> 'a \<times> rng" where
  "choice seq g = (let (u, g') = random g in (seq ! nat \<lfloor>u * of_nat (length seq)\<rfloor>, g'))"

fun choices :: "'a list \<Rightarrow> nat \<Rightarrow> rng \<Rightarrow> 'a list \<times> rng" where
  "choices population 0 g = ([], g)"
| "choices population (Suc k) g =
     (let (u, g1) = random g;
          x = population ! nat \<lfloor>u * of_nat (length population)\<rfloor>;
          (xs, g2) = choices population k g1
      in (x # xs, g2))"

fun accumulate :: "real \<Rightarrow> real list \<Rightarrow> real list" where
  "accumulate acc [] = []"
| "accumulate acc (w # ws) = (acc + w) # accumulate (acc + w) ws"

definition bisect :: "real list \<Rightarrow> real \<Rightarrow> nat \<Rightarrow> nat" where
  \<comment> \<open>\<open>bisect(a, x, 0, hi)\<close> on a sorted list: how many of the first \<open>hi\<close> entries are \<open>\<le> x\<close>\<close>
  "bisect a x hi = length (takeWhile (\<lambda>c. c \<le> x) (take hi a))"

fun choices_weights :: "'a list \<Rightarrow> real list \<Rightarrow> nat \<Rightarrow> rng \<Rightarrow> 'a list \<times> rng" where
  "choices_weights population weights 0 g = ([], g)"
| "choices_weights population weights (Suc k) g =
     (let cum_weights = accumulate 0 weights;
          total = last cum_weights + 0.0;
          hi = length population - 1;
          (u, g1) = random g;
          x = population ! bisect cum_weights (u * total) hi;
          (xs, g2) = choices_weights population weights k g1
      in (x # xs, g2))"

subsection \<open>Rounding\<close>

text \<open>Python's \<open>round\<close> goes to the nearest value and, at a tie, to the even one.\<close>

definition py_round :: "real \<Rightarrow> int" where
  "py_round x =
     (let f = \<lfloor>x\<rfloor>; d = x - of_int f
      in if d < 1/2 then f
         else if 1/2 < d then f + 1
         else if even f then f else f + 1)"

definition round2 :: "real \<Rightarrow> real" where
  \<comment> \<open>\<open>round(x, 2)\<close>\<close>
  "round2 x = of_int (py_round (x * 100)) / 100"

subsection \<open>Metrics generator\<close>

record ServiceMetrics =
  service_name :: string
  cpu_usage_percent :: real
  memory_mb :: int
  p99_latency_ms :: real
  request_rate_per_sec :: real
  error_rate_percent :: real
  memory_leak_score :: real
  anomaly_detected :: bool

definition generate_service_metrics :: "string \<Rightarrow> rng \<Rightarrow> ServiceMetrics \<times> rng" where
  "generate_service_metrics service g =
     (let (x1, g1) = uniform 5 95 g;
          cpu_usage = round2 x1;
          (memory_mb, g2) = randint 128 2048 g1;
          (x3, g3) = uniform 10 500 g2;
          p99_latency = round2 x3;
          (x4, g4) = uniform 10 1000 g3;
          request_rate = round2 x4;
          (x5, g5) = uniform 0 5 g4;
          error_rate = round2 x5;
          (r, g6) = random g5;
          (x7, g7) = (if r < 0.2 then uniform 60 95 g6 else uniform 0 40 g6);
          memory_leak_score = round2 x7;
          anomaly_detected =
            (cpu_usage > 85 \<or>
             p99_latency > 400 \<or>
             error_rate > 3 \<or>
             memory_leak_score > 70)
      in (\<lparr>service_name = service,
           cpu_usage_percent = cpu_usage,
           memory_mb = memory_mb,
           p99_latency_ms = p99_latency,
           request_rate_per_sec = request_rate,
           error_rate_percent = error_rate,
           memory_leak_score = memory_leak_score,
           anomaly_detected = anomaly_detected\<rparr>, g7))"

subsection \<open>Strings\<close>

definition NL :: string where
  "NL = [CHR 0x0A]"

fun join :: "string \<Rightarrow> string list \<Rightarrow> string" where
  "join sep [] = []"
| "join sep [x] = x"
| "join sep (x # y # ys) = x @ sep @ join sep (y # ys)"

fun contains :: "string \<Rightarrow> string \<Rightarrow> bool" where
  \<comment> \<open>\<open>sub in s\<close>\<close>
  "contains sub [] = (sub = [])"
| "contains sub (c # cs) = (take (length sub) (c # cs) = sub \<or> contains sub cs)"

fun format_str :: "string \<Rightarrow> string \<Rightarrow> string" where
  \<comment> \<open>\<open>s.format(arg)\<close> for a template with at most one \<open>{}\<close> and no other brace,
      as every entry of \<open>LOG_MESSAGES\<close> is\<close>
  "format_str [] arg = []"
| "format_str [c] arg = [c]"
| "format_str (c # d # cs) arg =
     (if c = CHR ''{'' \<and> d = CHR ''}'' then arg @ cs else c # format_str (d # cs) arg)"

fun str_nat :: "nat \<Rightarrow> string" where
  "str_nat n =
     (if n < 10 then [''0123456789'' ! n]
      else str_nat (n div 10) @ [''0123456789'' ! (n mod 10)])"

definition str_int :: "int \<Rightarrow> string" where
  \<comment> \<open>\<open>str(i)\<close>, also what an f-string writes for an integer\<close>
  "str_int i = (if i < 0 then CHR ''-'' # str_nat (nat (- i)) else str_nat (nat i))"

subsection \<open>Dates and the environment\<close>

text \<open>
  A \<open>datetime\<close> is a count of microseconds on the calendar's time line and a
  \<open>timedelta\<close> a signed count of microseconds, which is how the library stores both.
  \<open>timedelta(seconds=x)\<close> rounds a float to the nearest microsecond, ties to even.
  The calendar's ends (years 1 and 9999) are not modelled: the clock is nowhere near them.
\<close>

type_synonym datetime = int
type_synonym timedelta = int

definition timedelta_hours :: "int \<Rightarrow> timedelta" where
  "timedelta_hours h = h * 3600000000"

definition timedelta_days :: "int \<Rightarrow> timedelta" where
  "timedelta_days d = d * 86400000000"

definition timedelta_seconds :: "real \<Rightarrow> timedelta" where
  "timedelta_seconds x = py_round (x * 1000000)"

record env =
  now :: datetime \<comment> \<open>what \<open>datetime.now()\<close> returns during the request\<close>
  strftime :: "string \<Rightarrow> datetime \<Rightarrow> string" \<comment> \<open>\<open>t.strftime(fmt)\<close>, format first\<close>
  isoformat :: "datetime \<Rightarrow> string" \<comment> \<open>\<open>t.isoformat()\<close>\<close>

subsection \<open>Log generator\<close>

definition generate_log_line :: "env \<Rightarrow> string \<Rightarrow> datetime \<Rightarrow> rng \<Rightarrow> string \<times> rng" where
  "generate_log_line E service timestamp g =
     (let (lv, g1) = choices_weights LOG_LEVELS LOG_LEVEL_WEIGHTS 1 g;
          level = lv ! 0;
          (message, g2) = choice LOG_MESSAGES g1;
          (message, g3) =
            (if contains ''{}'' message then
               (let (a, h1) = randint 1000 9999 g2;
                    (b, h2) = randint 200 500 h1;
                    (c, h3) = randint 1 100 h2;
                    (d, h4) = randint 64 512 h3;
                    replacements =
                      [''user_'' @ str_int a,
                       str_int b,
                       ''resource_'' @ str_int c,
                       str_int d];
                    (r, h5) = choice replacements h4
                in (format_str message r, h5))
             else (message, g2));
          s = strftime E ''%Y-%m-%d %H:%M:%S.%f'' timestamp;
          timestamp_str = take (length s - 3) s
      in (timestamp_str @ '' ['' @ level @ ''] ['' @ service @ ''] '' @ message, g3))"

subsection \<open>Commit generator\<close>

record Commit =
  commit_hash :: string
  author :: string
  date :: string
  message :: string
  service :: string
  files_changed :: int
  insertions :: int
  deletions :: int

definition generate_commit :: "env \<Rightarrow> string \<Rightarrow> datetime \<Rightarrow> rng \<Rightarrow> Commit \<times> rng" where
  \<comment> \<open>the parameter \<open>service\<close> is written \<open>svc\<close>: \<open>service\<close> is the record's field\<close>
  "generate_commit E svc timestamp g =
     (let (cs, g1) = choices ''0123456789abcdef'' 7 g;
          commit_hash = join [] (map (\<lambda>c. [c]) cs);
          (author, g2) = choice DEVELOPERS g1;
          (commit_type, g3) = choice COMMIT_TYPES g2;
          (message, g4) = choice COMMIT_MESSAGES g3;
          full_message = commit_type @ '': '' @ message;
          (files_changed, g5) = randint 1 15 g4;
          (insertions, g6) = randint 5 200 g5;
          (deletions, g7) = randint 1 100 g6
      in (\<lparr>commit_hash = commit_hash,
           author = author,
           date = strftime E ''%Y-%m-%d %H:%M:%S'' timestamp,
           message = full_message,
           service = svc,
           files_changed = files_changed,
           insertions = insertions,
           deletions = deletions\<rparr>, g7))"

definition format_commit :: "Commit \<Rightarrow> string" where
  "format_commit commit =
     ''commit '' @ commit_hash commit @ NL @
     ''Author: '' @ author commit @ NL @
     ''Date:   '' @ date commit @ NL @
     ''Service: '' @ service commit @ NL @
     NL @
     ''    '' @ message commit @ NL @
     NL @
     ''    '' @ str_int (files_changed commit) @ '' files changed, '' @
     str_int (insertions commit) @ '' insertions(+), '' @
     str_int (deletions commit) @ '' deletions(-)'' @ NL"

subsection \<open>Root endpoint\<close>

text \<open>
  The second component of \<open>throw_error\<close> and \<open>read_root\<close> is the number of seconds
  the call has spent in \<open>time.sleep\<close>. Python evaluates both elements of the list
  before \<open>random.choice\<close> picks one of them.
\<close>

type_synonym status_dict = "(string \<times> int) list"

definition throw_error :: "real \<Rightarrow> status_dict \<times> real" where
  "throw_error slept = ([(''status'', 500)], slept + 3)"

definition read_root :: "real \<Rightarrow> rng \<Rightarrow> status_dict \<times> real \<times> rng" where
  "read_root slept g =
     (let ok = [(''status'', 200)];
          (err, slept') = throw_error slept;
          (r, g') = choice [ok, err] g
      in (r, slept', g'))"

subsection \<open>Sorting\<close>

text \<open>
  \<open>list.sort(key=f)\<close> is a stable sort, as \<open>sort_key\<close> is; with \<open>reverse=True\<close> the
  order is descending and still stable, which is a stable ascending sort of the reversed
  list, reversed.
\<close>

definition list_sort :: "('a \<Rightarrow> 'k::linorder) \<Rightarrow> bool \<Rightarrow> 'a list \<Rightarrow> 'a list" where
  "list_sort key reverse xs = (if reverse then rev (sort_key key (rev xs)) else sort_key key xs)"

subsection \<open>Logs endpoint\<close>

record log_item =
  timestamp :: datetime
  line :: string

definition service_log_count :: "int \<Rightarrow> int \<Rightarrow> nat \<Rightarrow> int" where
  "service_log_count logs_per_service remainder idx =
     logs_per_service + (if int idx < remainder then 1 else 0)"

fun logs_inner :: "env \<Rightarrow> datetime \<Rightarrow> string \<Rightarrow> nat \<Rightarrow> log_item list \<Rightarrow> rng \<Rightarrow> log_item list \<times> rng" where
  \<comment> \<open>\<open>for i in range(service_log_count)\<close>, counting down the iterations left\<close>
  "logs_inner E start_time svc 0 logs g = (logs, g)"
| "logs_inner E start_time svc (Suc i) logs g =
     (let (x, g1) = uniform 0 3600 g;
          timestamp = start_time + timedelta_seconds x;
          (ln, g2) = generate_log_line E svc timestamp g1
      in logs_inner E start_time svc i
           (logs @ [\<lparr>log_item.timestamp = timestamp, line = ln\<rparr>]) g2)"

fun logs_outer :: "env \<Rightarrow> datetime \<Rightarrow> int \<Rightarrow> int \<Rightarrow> (nat \<times> string) list \<Rightarrow> log_item list \<Rightarrow> rng \<Rightarrow> log_item list \<times> rng" where
  \<comment> \<open>\<open>for idx, service in enumerate(SERVICES)\<close>\<close>
  "logs_outer E start_time logs_per_service remainder [] logs g = (logs, g)"
| "logs_outer E start_time logs_per_service remainder ((idx, svc) # rest) logs g =
     (let n = service_log_count logs_per_service remainder idx;
          (logs', g') = logs_inner E start_time svc (nat n) logs g
      in logs_outer E start_time logs_per_service remainder rest logs' g')"

definition get_logs_generate :: "env \<Rightarrow> int \<Rightarrow> rng \<Rightarrow> log_item list \<times> rng" where
  \<comment> \<open>lines 249 to 270 of \<open>get_logs\<close>: the list \<open>logs\<close> before it is sorted\<close>
  "get_logs_generate E num_logs g =
     (let end_time = now E;
          start_time = end_time - timedelta_hours 1;
          logs_per_service = num_logs div int (length SERVICES);
          remainder = num_logs mod int (length SERVICES)
      in logs_outer E start_time logs_per_service remainder (enumerate 0 SERVICES) [] g)"

record LogsResponse =
  cluster_name :: string
  total_services :: int
  services :: "string list"
  log_count :: int
  time_range :: "(string \<times> string) list"
  logs :: string

definition get_logs :: "env \<Rightarrow> int \<Rightarrow> rng \<Rightarrow> LogsResponse \<times> rng" where
  "get_logs E num_logs g =
     (let end_time = now E;
          start_time = end_time - timedelta_hours 1;
          (generated, g') = get_logs_generate E num_logs g;
          sorted_logs = list_sort log_item.timestamp False generated;
          log_lines = map line sorted_logs
      in (\<lparr>LogsResponse.cluster_name = CLUSTER_NAME,
           total_services = int (length SERVICES),
           LogsResponse.services = SERVICES,
           log_count = int (length log_lines),
           LogsResponse.time_range =
             [(''start'', isoformat E start_time), (''end'', isoformat E end_time)],
           logs = join NL log_lines\<rparr>, g'))"

subsection \<open>Commit history endpoint\<close>

record commit_item =
  timestamp :: datetime
  commit :: Commit

definition service_commit_count :: "int \<Rightarrow> int \<Rightarrow> nat \<Rightarrow> int" where
  "service_commit_count commits_per_service remainder idx =
     commits_per_service + (if int idx < remainder then 1 else 0)"

fun commits_inner :: "env \<Rightarrow> datetime \<Rightarrow> string \<Rightarrow> nat \<Rightarrow> commit_item list \<Rightarrow> rng \<Rightarrow> commit_item list \<times> rng" where
  \<comment> \<open>\<open>for i in range(service_commit_count)\<close>, counting down the iterations left\<close>
  "commits_inner E start_time svc 0 commits g = (commits, g)"
| "commits_inner E start_time svc (Suc i) commits g =
     (let (x, g1) = uniform 0 (30 * 24 * 3600) g;
          timestamp = start_time + timedelta_seconds x;
          (c, g2) = generate_commit E svc timestamp g1
      in commits_inner E start_time svc i
           (commits @ [\<lparr>commit_item.timestamp = timestamp, commit = c\<rparr>]) g2)"

fun commits_outer :: "env \<Rightarrow> datetime \<Rightarrow> int \<Rightarrow> int \<Rightarrow> (nat \<times> string) list \<Rightarrow> commit_item list \<Rightarrow> rng \<Rightarrow> commit_item list \<times> rng" where
  \<comment> \<open>\<open>for idx, service in enumerate(SERVICES)\<close>\<close>
  "commits_outer E start_time commits_per_service remainder [] commits g = (commits, g)"
| "commits_outer E start_time commits_per_service remainder ((idx, svc) # rest) commits g =
     (let n = service_commit_count commits_per_service remainder idx;
          (commits', g') = commits_inner E start_time svc (nat n) commits g
      in commits_outer E start_time commits_per_service remainder rest commits' g')"

definition get_commit_history_generate :: "env \<Rightarrow> int \<Rightarrow> rng \<Rightarrow> commit_item list \<times> rng" where
  \<comment> \<open>lines 302 to 323 of \<open>get_commit_history\<close>: the list \<open>commits\<close> before it is sorted\<close>
  "get_commit_history_generate E num_commits g =
     (let end_time = now E;
          start_time = end_time - timedelta_days 30;
          commits_per_service = num_commits div int (length SERVICES);
          remainder = num_commits mod int (length SERVICES)
      in commits_outer E start_time commits_per_service remainder (enumerate 0 SERVICES) [] g)"

record CommitHistoryResponse =
  cluster_name :: string
  total_commits :: int
  services :: "string list"
  time_range :: "(string \<times> string) list"
  commits :: string

definition get_commit_history :: "env \<Rightarrow> int \<Rightarrow> rng \<Rightarrow> CommitHistoryResponse \<times> rng" where
  "get_commit_history E num_commits g =
     (let end_time = now E;
          start_time = end_time - timedelta_days 30;
          (generated, g') = get_commit_history_generate E num_commits g;
          sorted_commits = list_sort commit_item.timestamp True generated;
          commit_lines = map (\<lambda>c. format_commit (commit c)) sorted_commits
      in (\<lparr>CommitHistoryResponse.cluster_name = CLUSTER_NAME,
           total_commits = int (length sorted_commits),
           CommitHistoryResponse.services = SERVICES,
           CommitHistoryResponse.time_range =
             [(''start'', isoformat E start_time), (''end'', isoformat E end_time)],
           commits = join NL commit_lines\<rparr>, g'))"

subsection \<open>Metrics endpoint\<close>

fun metrics_for :: "string list \<Rightarrow> rng \<Rightarrow> ServiceMetrics list \<times> rng" where
  \<comment> \<open>\<open>[generate_service_metrics(service) for service in SERVICES]\<close>\<close>
  "metrics_for [] g = ([], g)"
| "metrics_for (svc # rest) g =
     (let (m, g1) = generate_service_metrics svc g;
          (ms, g2) = metrics_for rest g1
      in (m # ms, g2))"

record MetricsResponse =
  timestamp :: string
  cluster_name :: string
  services :: "ServiceMetrics list"

definition get_metrics :: "env \<Rightarrow> rng \<Rightarrow> MetricsResponse \<times> rng" where
  "get_metrics E g =
     (let (service_metrics, g') = metrics_for SERVICES g
      in (\<lparr>MetricsResponse.timestamp = isoformat E (now E),
           MetricsResponse.cluster_name = CLUSTER_NAME,
           MetricsResponse.services = service_metrics\<rparr>, g'))"

subsection \<open>Request validation\<close>

text \<open>
  The handlers declare their parameter as \<open>Query(default=d, ge=lo, le=hi)\<close>. The framework
  checks the declared bounds before it calls the handler: a request without the parameter
  gets the default, a value inside the bounds is passed on, and a value outside is answered
  with status 422 without calling the handler. A request carries the parameter as
  \<open>Some n\<close> or not at all.
\<close>

datatype http_error = RequestValidationError int

definition Query :: "int \<Rightarrow> int \<Rightarrow> int \<Rightarrow> int option \<Rightarrow> http_error + int" where
  "Query dflt ge le param =
     (case param of
        None \<Rightarrow> Inr dflt
      | Some n \<Rightarrow> if ge \<le> n \<and> n \<le> le then Inr n else Inl (RequestValidationError 422))"

definition logs_endpoint :: "env \<Rightarrow> int option \<Rightarrow> rng \<Rightarrow> (http_error + LogsResponse) \<times> rng" where
  "logs_endpoint E param g =
     (case Query 100 1 10000 param of
        Inl e \<Rightarrow> (Inl e, g)
      | Inr num_logs \<Rightarrow> (let (r, g') = get_logs E num_logs g in (Inr r, g')))"

definition commit_history_endpoint :: "env \<Rightarrow> int option \<Rightarrow> rng \<Rightarrow> (http_error + CommitHistoryResponse) \<times> rng" where
  "commit_history_endpoint E param g =
     (case Query 50 1 1000 param of
        Inl e \<Rightarrow> (Inl e, g)
      | Inr num_commits \<Rightarrow> (let (r, g') = get_commit_history E num_commits g in (Inr r, g')))"

subsection \<open>The even split, in the specification's words\<close>


section \<open>Properties\<close>

subsection \<open>Rounding and draws\<close>

lemma py_round_cases:
  "py_round x = \<lfloor>x\<rfloor> \<or> py_round x = \<lfloor>x\<rfloor> + 1 \<and> of_int \<lfloor>x\<rfloor> < x"
  unfolding py_round_def Let_def by (auto simp: not_less)

lemma py_round_ge: "of_int k \<le> x \<Longrightarrow> k \<le> py_round x"
proof -
  assume "of_int k \<le> x"
  then have "k \<le> \<lfloor>x\<rfloor>" by (simp add: le_floor_iff)
  with py_round_cases [of x] show ?thesis by linarith
qed

lemma py_round_le: "x \<le> of_int k \<Longrightarrow> py_round x \<le> k"
proof -
  assume h: "x \<le> of_int k"
  from py_round_cases [of x] show ?thesis
  proof
    assume "py_round x = \<lfloor>x\<rfloor>"
    with h show ?thesis by (simp add: floor_le_iff)
  next
    assume a: "py_round x = \<lfloor>x\<rfloor> + 1 \<and> of_int \<lfloor>x\<rfloor> < x"
    then have "of_int \<lfloor>x\<rfloor> < (of_int k :: real)" using h by linarith
    then have "\<lfloor>x\<rfloor> < k" by simp
    with a show ?thesis by simp
  qed
qed

lemma round2_ge: "of_int k \<le> x * 100 \<Longrightarrow> of_int k / 100 \<le> round2 x"
  unfolding round2_def using py_round_ge [of k "x * 100"] by (simp add: divide_le_cancel)

lemma round2_le: "x * 100 \<le> of_int k \<Longrightarrow> round2 x \<le> of_int k / 100"
  unfolding round2_def using py_round_le [of "x * 100" k] by (simp add: divide_le_cancel)

lemma round2_between:
  "of_int a \<le> x \<Longrightarrow> x \<le> of_int b \<Longrightarrow> of_int a \<le> round2 x \<and> round2 x \<le> of_int b"
  using round2_ge [of "a * 100" x] round2_le [of x "b * 100"] by simp

lemma random_valid:
  "valid_rng g \<Longrightarrow> random g = (u, g') \<Longrightarrow> 0 \<le> u \<and> u < 1 \<and> valid_rng g'"
  by (auto simp: valid_rng_def random_def)

lemma uniform_valid:
  "valid_rng g \<Longrightarrow> uniform a b g = (x, g') \<Longrightarrow> a \<le> b \<Longrightarrow> a \<le> x \<and> x \<le> b \<and> valid_rng g'"
proof -
  assume v: "valid_rng g" and u: "uniform a b g = (x, g')" and ab: "a \<le> b"
  obtain r where r: "random g = (r, g')" and x: "x = a + (b - a) * r"
    using u by (auto simp: uniform_def split: prod.splits)
  from random_valid [OF v r] have r01: "0 \<le> r" "r < 1" and v': "valid_rng g'" by auto
  have "0 \<le> (b - a) * r" using ab r01 by simp
  moreover have "(b - a) * r \<le> (b - a) * 1" using ab r01 by (intro mult_left_mono) auto
  ultimately show ?thesis using x v' by simp
qed

lemma valid_rng_shift: "valid_rng g \<Longrightarrow> valid_rng (\<lambda>i. g (i + k))"
  by (simp add: valid_rng_def)

subsection \<open>Metrics\<close>

lemma gsm_fields:
  "cpu_usage_percent (fst (generate_service_metrics svc g)) = round2 (5 + 90 * g 0)"
  "memory_leak_score (fst (generate_service_metrics svc g)) =
     (if g 5 < 0.2 then round2 (60 + 35 * g 6) else round2 (40 * g 6))"
  "service_name (fst (generate_service_metrics svc g)) = svc"
  by (simp_all add: generate_service_metrics_def uniform_def randint_def random_def
        Let_def split_def eval_nat_numeral)

lemma gsm_rng: "snd (generate_service_metrics svc g) = (\<lambda>i. g (i + 7))"
  by (simp add: generate_service_metrics_def uniform_def randint_def random_def
        Let_def split_def eval_nat_numeral)

lemma gsm_anomaly:
  "anomaly_detected (fst (generate_service_metrics svc g)) \<longleftrightarrow>
     cpu_usage_percent (fst (generate_service_metrics svc g)) > 85 \<or>
     p99_latency_ms (fst (generate_service_metrics svc g)) > 400 \<or>
     error_rate_percent (fst (generate_service_metrics svc g)) > 3 \<or>
     memory_leak_score (fst (generate_service_metrics svc g)) > 70"
  by (simp add: generate_service_metrics_def Let_def split_def)

lemma metrics_for_names: "map service_name (fst (metrics_for ss g)) = ss"
  by (induction ss arbitrary: g) (simp_all add: split_def Let_def gsm_fields)

lemma metrics_for_all:
  assumes "\<And>svc g. Q g \<Longrightarrow>
    P (fst (generate_service_metrics svc g)) \<and> Q (snd (generate_service_metrics svc g))"
  shows "Q g \<Longrightarrow> list_all P (fst (metrics_for ss g))"
  by (induction ss arbitrary: g) (simp_all add: split_def Let_def assms)

lemma get_metrics_services:
  "MetricsResponse.services (fst (get_metrics E g)) = fst (metrics_for SERVICES g)"
  by (simp add: get_metrics_def split_def Let_def)

text \<open>
  C1. In every record that \<open>generate_service_metrics\<close> returns, and so in every entry of
  the \<open>/metrics\<close> response, \<open>anomaly_detected\<close> is true exactly when
  \<open>cpu_usage_percent > 85\<close> or \<open>p99_latency_ms > 400\<close> or \<open>error_rate_percent > 3\<close> or
  \<open>memory_leak_score > 70\<close>, computed from the fields of the same record.
\<close>

theorem anomaly_detected_iff_thresholds:
  "(let m = fst (generate_service_metrics svc g)
    in anomaly_detected m \<longleftrightarrow>
         cpu_usage_percent m > 85 \<or> p99_latency_ms m > 400 \<or>
         error_rate_percent m > 3 \<or> memory_leak_score m > 70) \<and>
   list_all
     (\<lambda>m. anomaly_detected m \<longleftrightarrow>
         cpu_usage_percent m > 85 \<or> p99_latency_ms m > 400 \<or>
         error_rate_percent m > 3 \<or> memory_leak_score m > 70)
     (MetricsResponse.services (fst (get_metrics E g)))"
proof -
  have one: "\<And>svc g. anomaly_detected (fst (generate_service_metrics svc g)) \<longleftrightarrow>
         cpu_usage_percent (fst (generate_service_metrics svc g)) > 85 \<or>
         p99_latency_ms (fst (generate_service_metrics svc g)) > 400 \<or>
         error_rate_percent (fst (generate_service_metrics svc g)) > 3 \<or>
         memory_leak_score (fst (generate_service_metrics svc g)) > 70"
    by (rule gsm_anomaly)
  have "list_all
     (\<lambda>m. anomaly_detected m \<longleftrightarrow>
         cpu_usage_percent m > 85 \<or> p99_latency_ms m > 400 \<or>
         error_rate_percent m > 3 \<or> memory_leak_score m > 70)
     (fst (metrics_for SERVICES g))"
    by (rule metrics_for_all [where Q = "\<lambda>_. True"]) (simp_all add: one)
  then show ?thesis
    by (simp add: Let_def one get_metrics_services)
qed

text \<open>
  C7. Every \<open>/metrics\<close> response holds exactly six entries whose \<open>service_name\<close>
  values are the six catalog names in catalog order, without duplicate or omission,
  together with the cluster name \<open>production-cluster-01\<close> and, as timestamp, the
  library's ISO rendering of the clock reading.
\<close>

theorem get_metrics_catalog_order:
  "map service_name (MetricsResponse.services (fst (get_metrics E g))) =
     [''auth-service'', ''user-service'', ''payment-service'',
      ''notification-service'', ''analytics-service'', ''api-gateway''] \<and>
   length (MetricsResponse.services (fst (get_metrics E g))) = 6 \<and>
   distinct (map service_name (MetricsResponse.services (fst (get_metrics E g)))) \<and>
   MetricsResponse.cluster_name (fst (get_metrics E g)) = ''production-cluster-01'' \<and>
   MetricsResponse.timestamp (fst (get_metrics E g)) = isoformat E (now E)"
proof -
  have names: "map service_name (MetricsResponse.services (fst (get_metrics E g))) = SERVICES"
    by (simp add: get_metrics_services metrics_for_names)
  have "length (map service_name (MetricsResponse.services (fst (get_metrics E g)))) = 6"
    unfolding names by (simp add: SERVICES_def)
  then have len: "length (MetricsResponse.services (fst (get_metrics E g))) = 6"
    by simp
  have dist: "distinct SERVICES"
    by (simp add: SERVICES_def)
  have rest: "MetricsResponse.cluster_name (fst (get_metrics E g)) = ''production-cluster-01''"
    "MetricsResponse.timestamp (fst (get_metrics E g)) = isoformat E (now E)"
    by (simp_all add: get_metrics_def split_def Let_def CLUSTER_NAME_def)
  show ?thesis
    using len rest dist unfolding names by (simp add: SERVICES_def)
qed

text \<open>
  C5. With draws in \<open>[0, 1)\<close>, the leak score of a generated record is the rounded
  uniform value on \<open>[60, 95]\<close> when the draw compared with \<open>0.2\<close> is below it, and the
  rounded uniform value on \<open>[0, 40]\<close> otherwise; so it lies in \<open>[0, 40]\<close> or in
  \<open>[60, 95]\<close>, never strictly between \<open>40\<close> and \<open>60\<close>; and \<open>cpu_usage_percent\<close> lies in
  \<open>[5, 95]\<close>. The same holds of every entry of the \<open>/metrics\<close> response.
\<close>

theorem metrics_ranges:
  assumes "valid_rng g"
  shows "(let m = fst (generate_service_metrics svc g)
          in memory_leak_score m =
               (if g 5 < 0.2 then round2 (60 + (95 - 60) * g 6) else round2 (0 + (40 - 0) * g 6)) \<and>
             (if g 5 < 0.2 then 60 \<le> memory_leak_score m \<and> memory_leak_score m \<le> 95
              else 0 \<le> memory_leak_score m \<and> memory_leak_score m \<le> 40) \<and>
             memory_leak_score m \<notin> {40 <..< 60} \<and>
             5 \<le> cpu_usage_percent m \<and> cpu_usage_percent m \<le> 95) \<and>
         list_all
           (\<lambda>m. memory_leak_score m \<in> {0 .. 40} \<union> {60 .. 95} \<and>
                memory_leak_score m \<notin> {40 <..< 60} \<and>
                cpu_usage_percent m \<in> {5 .. 95})
           (MetricsResponse.services (fst (get_metrics E g)))"
proof -
  have one: "60 \<le> round2 (60 + 35 * h 6) \<and> round2 (60 + 35 * h 6) \<le> 95 \<and>
             0 \<le> round2 (40 * h 6) \<and> round2 (40 * h 6) \<le> 40 \<and>
             5 \<le> round2 (5 + 90 * h 0) \<and> round2 (5 + 90 * h 0) \<le> 95"
    if "valid_rng h" for h
  proof -
    from that have h6: "0 \<le> h 6" "h 6 \<le> 1" and h0: "0 \<le> h 0" "h 0 \<le> 1"
      by (simp_all add: valid_rng_def less_imp_le)
    show ?thesis
      using round2_between [of 60 "60 + 35 * h 6" 95] round2_between [of 0 "40 * h 6" 40]
        round2_between [of 5 "5 + 90 * h 0" 95] h6 h0
      by simp
  qed
  have all: "list_all
           (\<lambda>m. memory_leak_score m \<in> {0 .. 40} \<union> {60 .. 95} \<and>
                memory_leak_score m \<notin> {40 <..< 60} \<and>
                cpu_usage_percent m \<in> {5 .. 95})
           (fst (metrics_for SERVICES g))"
  proof (rule metrics_for_all [where Q = valid_rng])
    fix svc h
    assume v: "valid_rng h"
    from one [OF v] valid_rng_shift [OF v, of 7]
    show "(memory_leak_score (fst (generate_service_metrics svc h)) \<in> {0 .. 40} \<union> {60 .. 95} \<and>
           memory_leak_score (fst (generate_service_metrics svc h)) \<notin> {40 <..< 60} \<and>
           cpu_usage_percent (fst (generate_service_metrics svc h)) \<in> {5 .. 95}) \<and>
          valid_rng (snd (generate_service_metrics svc h))"
      by (simp add: gsm_fields gsm_rng)
  qed (rule assms)
  from one [OF assms] all show ?thesis
    by (simp add: Let_def gsm_fields get_metrics_services)
qed

theorem metrics_ranges_witness:
  "valid_rng (\<lambda>_. 1/2) \<and>
   (let m = fst (generate_service_metrics ''api-gateway'' (\<lambda>_. 1/2))
    in memory_leak_score m = 20 \<and> memory_leak_score m \<notin> {40 <..< 60} \<and>
       5 \<le> cpu_usage_percent m \<and> cpu_usage_percent m \<le> 95)"
proof -
  have v: "valid_rng (\<lambda>_. 1/2)"
    by (simp add: valid_rng_def)
  have "round2 20 = 20"
    by (simp add: round2_def py_round_def)
  with metrics_ranges [OF v, of "''api-gateway''"] v show ?thesis
    by (simp add: Let_def)
qed

subsection \<open>The generator state stays valid\<close>

lemma random_snd_valid: "valid_rng g \<Longrightarrow> valid_rng (snd (random g))"
  by (simp add: valid_rng_def random_def)

lemma uniform_snd_valid: "valid_rng g \<Longrightarrow> valid_rng (snd (uniform a b g))"
  by (simp add: uniform_def split_def Let_def random_snd_valid)

lemma randint_snd_valid: "valid_rng g \<Longrightarrow> valid_rng (snd (randint a b g))"
  by (simp add: randint_def split_def Let_def random_snd_valid)

lemma choice_snd_valid: "valid_rng g \<Longrightarrow> valid_rng (snd (choice xs g))"
  by (simp add: choice_def split_def Let_def random_snd_valid)

lemma choices_snd_valid: "valid_rng g \<Longrightarrow> valid_rng (snd (choices xs k g))"
  by (induction k arbitrary: g) (simp_all add: split_def Let_def random_snd_valid)

lemma choices_weights_snd_valid: "valid_rng g \<Longrightarrow> valid_rng (snd (choices_weights xs ws k g))"
  by (induction k arbitrary: g) (simp_all add: split_def Let_def random_snd_valid)

lemmas snd_valid = random_snd_valid uniform_snd_valid randint_snd_valid choice_snd_valid
  choices_snd_valid choices_weights_snd_valid

lemma generate_log_line_snd_valid:
  "valid_rng g \<Longrightarrow> valid_rng (snd (generate_log_line E svc ts g))"
  by (simp add: generate_log_line_def split_def Let_def snd_valid)

lemma generate_commit_snd_valid:
  "valid_rng g \<Longrightarrow> valid_rng (snd (generate_commit E svc ts g))"
  by (simp add: generate_commit_def split_def Let_def snd_valid)

lemma uniform_fst_range:
  "valid_rng g \<Longrightarrow> a \<le> b \<Longrightarrow> a \<le> fst (uniform a b g) \<and> fst (uniform a b g) \<le> b"
  using uniform_valid [of g a b "fst (uniform a b g)" "snd (uniform a b g)"] by simp

lemma timedelta_seconds_range:
  "0 \<le> x \<Longrightarrow> x \<le> of_int k \<Longrightarrow> 0 \<le> timedelta_seconds x \<and> timedelta_seconds x \<le> k * 1000000"
  unfolding timedelta_seconds_def
  using py_round_ge [of 0 "x * 1000000"] py_round_le [of "x * 1000000" "k * 1000000"] by simp

subsection \<open>The generation loops\<close>











lemma logs_inner_window:
  "valid_rng g \<Longrightarrow> list_all (\<lambda>e. st \<le> log_item.timestamp e \<and> log_item.timestamp e \<le> st + 3600000000) ls \<Longrightarrow>
   list_all (\<lambda>e. st \<le> log_item.timestamp e \<and> log_item.timestamp e \<le> st + 3600000000) (fst (logs_inner E st svc k ls g)) \<and>
   valid_rng (snd (logs_inner E st svc k ls g))"
proof (induction k arbitrary: ls g)
  case 0
  then show ?case by simp
next
  case (Suc k)
  let ?x = "fst (uniform 0 3600 g)"
  from Suc.prems(1) have x: "0 \<le> ?x" "?x \<le> 3600"
    using uniform_fst_range [of g 0 3600] by simp_all
  have "st \<le> st + timedelta_seconds ?x \<and> st + timedelta_seconds ?x \<le> st + 3600000000"
    using timedelta_seconds_range [of ?x 3600] x by simp
  moreover have "valid_rng (snd (generate_log_line E svc (st + timedelta_seconds ?x) (snd (uniform 0 3600 g))))"
    using Suc.prems(1) by (simp add: snd_valid generate_log_line_snd_valid)
  ultimately show ?case
    using Suc.IH Suc.prems(2) by (simp add: split_def Let_def)
qed

lemma logs_outer_window:
  "valid_rng g \<Longrightarrow> list_all (\<lambda>e. st \<le> log_item.timestamp e \<and> log_item.timestamp e \<le> st + 3600000000) ls \<Longrightarrow>
   list_all (\<lambda>e. st \<le> log_item.timestamp e \<and> log_item.timestamp e \<le> st + 3600000000) (fst (logs_outer E st b r xs ls g)) \<and>
   valid_rng (snd (logs_outer E st b r xs ls g))"
proof (induction xs arbitrary: ls g)
  case Nil
  then show ?case by simp
next
  case (Cons p xs)
  obtain idx svc where p: "p = (idx, svc)" by (cases p)
  from logs_inner_window [OF Cons.prems, of E svc "nat (service_log_count b r idx)"]
  show ?case
    using Cons.IH by (simp add: p split_def Let_def)
qed

lemma commits_inner_window:
  "valid_rng g \<Longrightarrow>
   list_all (\<lambda>e. st \<le> commit_item.timestamp e \<and> commit_item.timestamp e \<le> st + 2592000000000) cs \<Longrightarrow>
   list_all (\<lambda>e. st \<le> commit_item.timestamp e \<and> commit_item.timestamp e \<le> st + 2592000000000)
     (fst (commits_inner E st svc k cs g)) \<and>
   valid_rng (snd (commits_inner E st svc k cs g))"
proof (induction k arbitrary: cs g)
  case 0
  then show ?case by simp
next
  case (Suc k)
  let ?x = "fst (uniform 0 (30 * 24 * 3600) g)"
  from Suc.prems(1) have x: "0 \<le> ?x" "?x \<le> 2592000"
    using uniform_fst_range [of g 0 "30 * 24 * 3600"] by simp_all
  have "st \<le> st + timedelta_seconds ?x \<and> st + timedelta_seconds ?x \<le> st + 2592000000000"
    using timedelta_seconds_range [of ?x 2592000] x by simp
  moreover have "valid_rng (snd (generate_commit E svc (st + timedelta_seconds ?x)
      (snd (uniform 0 (30 * 24 * 3600) g))))"
    using Suc.prems(1) by (simp add: snd_valid generate_commit_snd_valid)
  ultimately show ?case
    using Suc.IH Suc.prems(2) by (simp add: split_def Let_def)
qed

lemma commits_outer_window:
  "valid_rng g \<Longrightarrow>
   list_all (\<lambda>e. st \<le> commit_item.timestamp e \<and> commit_item.timestamp e \<le> st + 2592000000000) cs \<Longrightarrow>
   list_all (\<lambda>e. st \<le> commit_item.timestamp e \<and> commit_item.timestamp e \<le> st + 2592000000000)
     (fst (commits_outer E st b r xs cs g)) \<and>
   valid_rng (snd (commits_outer E st b r xs cs g))"
proof (induction xs arbitrary: cs g)
  case Nil
  then show ?case by simp
next
  case (Cons p xs)
  obtain idx svc where p: "p = (idx, svc)" by (cases p)
  from commits_inner_window [OF Cons.prems, of E svc "nat (service_commit_count b r idx)"]
  show ?case
    using Cons.IH by (simp add: p split_def Let_def)
qed












subsection \<open>The endpoints\<close>

lemma read_root_always_sleeps: "fst (snd (read_root slept g)) = slept + 3"
  by (simp add: read_root_def throw_error_def split_def Let_def)








text \<open>
  C10. With draws in \<open>[0, 1)\<close>, every generated log record carries a timestamp in the
  closed interval from one hour before the clock reading to the clock reading, and every
  generated commit one in the closed interval from thirty days before it to it; the
  \<open>time_range\<close> of the same response reports exactly these two ends.
\<close>

theorem timestamps_in_time_range:
  assumes "valid_rng g"
  shows "list_all (\<lambda>e. now E - 3600000000 \<le> log_item.timestamp e \<and> log_item.timestamp e \<le> now E)
           (fst (get_logs_generate E n g)) \<and>
         LogsResponse.time_range (fst (get_logs E n g)) =
           [(''start'', isoformat E (now E - 3600000000)), (''end'', isoformat E (now E))] \<and>
         list_all (\<lambda>e. now E - 2592000000000 \<le> commit_item.timestamp e \<and>
                       commit_item.timestamp e \<le> now E)
           (fst (get_commit_history_generate E m g)) \<and>
         CommitHistoryResponse.time_range (fst (get_commit_history E m g)) =
           [(''start'', isoformat E (now E - 2592000000000)), (''end'', isoformat E (now E))]"
proof -
  have "list_all (\<lambda>e. now E - 3600000000 \<le> log_item.timestamp e \<and>
                      log_item.timestamp e \<le> now E - 3600000000 + 3600000000)
          (fst (get_logs_generate E n g))"
    unfolding get_logs_generate_def Let_def timedelta_hours_def
    using logs_outer_window [OF assms, of "now E - 1 * 3600000000" "[]" E] by simp
  moreover have "list_all (\<lambda>e. now E - 2592000000000 \<le> commit_item.timestamp e \<and>
                      commit_item.timestamp e \<le> now E - 2592000000000 + 2592000000000)
          (fst (get_commit_history_generate E m g))"
    unfolding get_commit_history_generate_def Let_def timedelta_days_def
    using commits_outer_window [OF assms, of "now E - 30 * 86400000000" "[]" E] by simp
  moreover have "LogsResponse.time_range (fst (get_logs E n g)) =
           [(''start'', isoformat E (now E - 3600000000)), (''end'', isoformat E (now E))]"
    by (simp add: get_logs_def split_def Let_def timedelta_hours_def)
  moreover have "CommitHistoryResponse.time_range (fst (get_commit_history E m g)) =
           [(''start'', isoformat E (now E - 2592000000000)), (''end'', isoformat E (now E))]"
    by (simp add: get_commit_history_def split_def Let_def timedelta_days_def)
  ultimately show ?thesis by simp
qed

theorem timestamps_in_time_range_witness:
  "valid_rng (\<lambda>_. 1/2) \<and>
   list_all (\<lambda>e. - 3600000000 \<le> log_item.timestamp e \<and> log_item.timestamp e \<le> 0)
     (fst (get_logs_generate \<lparr>now = 0, strftime = (\<lambda>_ _. []), isoformat = (\<lambda>_. [])\<rparr> 8
        (\<lambda>_. 1/2)))"
proof -
  have v: "valid_rng (\<lambda>_. 1/2)"
    by (simp add: valid_rng_def)
  from timestamps_in_time_range [OF v,
      of "\<lparr>now = 0, strftime = (\<lambda>_ _. []), isoformat = (\<lambda>_. [])\<rparr>" 8 3] v
  show ?thesis by simp
qed

text \<open>
  C6. A request to \<open>/logs\<close> with \<open>num_logs\<close> outside \<open>[1, 10000]\<close>, or to
  \<open>/commit_history\<close> with \<open>num_commits\<close> outside \<open>[1, 1000]\<close>, is answered with the
  validation error (status 422) and leaves the generator state untouched: nothing is
  generated and the value is not clamped. A value inside the bounds reaches the handler
  unchanged.
\<close>

theorem out_of_bounds_rejected:
  "(if n < 1 \<or> 10000 < n
    then logs_endpoint E (Some n) g = (Inl (RequestValidationError 422), g)
    else logs_endpoint E (Some n) g = (Inr (fst (get_logs E n g)), snd (get_logs E n g))) \<and>
   (if m < 1 \<or> 1000 < m
    then commit_history_endpoint E (Some m) g = (Inl (RequestValidationError 422), g)
    else commit_history_endpoint E (Some m) g =
           (Inr (fst (get_commit_history E m g)), snd (get_commit_history E m g)))"
  by (auto simp: logs_endpoint_def commit_history_endpoint_def Query_def split_def Let_def)

text \<open>
  C2. The specification attaches the three second delay to the calls of \<open>GET /\<close> that
  answer status 500 only. The handler calls \<open>throw_error()\<close> while building the list it
  chooses from, so every call sleeps: here the draw picks the first element and the call
  answers status 200 after sleeping three seconds.
\<close>

theorem read_root_sleeps_before_200:
  "fst (read_root 0 (\<lambda>_. 0)) = [(''status'', 200)] \<and> fst (snd (read_root 0 (\<lambda>_. 0))) = 3"
  by (simp add: read_root_def throw_error_def choice_def random_def split_def Let_def)



end
